theory Spec2Isabelle
  imports Complex_Main
begin

section \<open>Sensitivity classifier (videoProcessing.js: analyzeSensitivity)\<close>

text \<open>
  JavaScript numbers are modelled as \<open>real\<close> (and pixel counts as \<open>int\<close>): the
  comparisons of the classifier are exact on the values it receives, and no property below
  depends on the rounding of a quotient. Strings are \<open>string\<close>; \<open>toLowerCase\<close> is the
  ASCII one. The \<open>analyzedAt\<close> timestamp of the result is left out.
\<close>

datatype sensitivity_level = Unknown | Safe | Flagged

record video_stream =
  vs_codec :: string
  vs_width :: int
  vs_height :: int

record audio_stream =
  as_codec :: string

record metadata =
  md_duration :: real
  md_size :: real
  md_bitRate :: real
  md_format :: string
  md_video :: "video_stream option"
  md_audio :: "audio_stream option"

record sensitivity_result =
  sr_sensitivity :: sensitivity_level
  sr_flags :: "string list"

definition toLowerCase_char :: "char \<Rightarrow> char" where
  "toLowerCase_char c =
     (let n = (of_char c :: nat) in if 65 \<le> n \<and> n \<le> 90 then char_of (n + 32) else c)"

definition toLowerCase :: "string \<Rightarrow> string" where
  "toLowerCase s = map toLowerCase_char s"

text \<open>\<open>String.prototype.includes\<close>: the keyword occurs as a contiguous substring.\<close>

fun includes_str :: "string \<Rightarrow> string \<Rightarrow> bool" where
  "includes_str [] k = (k = [])"
| "includes_str (c # cs) k = (take (length k) (c # cs) = k \<or> includes_str cs k)"

definition sensitiveKeywords :: "string list" where
  "sensitiveKeywords =
     [''explicit'', ''nsfw'', ''adult'', ''18+'', ''mature'', ''violence'', ''graphic'']"

text \<open>Rule 3 of the source: the loop over the keywords stops at the first one found.\<close>

definition keywordMatch :: "string \<Rightarrow> string \<Rightarrow> string option" where
  "keywordMatch title description =
     (let textToCheck = toLowerCase (title @ '' '' @ description)
      in find (\<lambda>keyword. includes_str textToCheck keyword) sensitiveKeywords)"

text \<open>
  Rule 4 of the source binds \<open>sizePerSecond\<close> only inside the guard
  \<open>metadata.duration > 0\<close>; outside it the quotient is not computed.
\<close>

definition sizePerSecond :: "metadata \<Rightarrow> real option" where
  "sizePerSecond m =
     (if md_duration m > 0 then Some (md_size m / md_duration m) else None)"

definition lowBitrateFlag :: string where
  "lowBitrateFlag = ''Unusually low bitrate/quality''"

definition analyzeSensitivity :: "metadata \<Rightarrow> string \<Rightarrow> string \<Rightarrow> sensitivity_result" where
  "analyzeSensitivity m title description =
     (let flags1 =
            (if md_duration m < 5 then [''Very short duration (< 5 seconds)'']
             else if md_duration m > 3600 then [''Very long duration (> 1 hour)'']
             else []);
          width = (case md_video m of None \<Rightarrow> 0 | Some v \<Rightarrow> vs_width v);
          height = (case md_video m of None \<Rightarrow> 0 | Some v \<Rightarrow> vs_height v);
          flags2 = flags1 @
            (if width > 0 \<and> height > 0
             then (let aspectRatio = real_of_int width / real_of_int height
                   in if aspectRatio < 1 / 2 \<or> aspectRatio > 3
                      then [''Unusual aspect ratio''] else [])
             else []);
          hit = keywordMatch title description;
          flags3 = flags2 @
            (case hit of None \<Rightarrow> []
             | Some keyword \<Rightarrow> [''Contains sensitive keyword: '' @ keyword]);
          sensitivity1 = (case hit of None \<Rightarrow> Safe | Some _ \<Rightarrow> Flagged);
          flags4 = flags3 @
            (case sizePerSecond m of None \<Rightarrow> []
             | Some r \<Rightarrow> if r < 10000 then [lowBitrateFlag] else []);
          flags5 = flags4 @
            (if md_audio m = None \<and> md_duration m > 30
             then [''No audio stream in video > 30s''] else []);
          sensitivity2 =
            (if length flags5 \<ge> 3 \<and> sensitivity1 \<noteq> Flagged then Flagged else sensitivity1);
          sensitivity3 =
            (if length flags5 = 0 then Safe
             else if sensitivity2 \<noteq> Flagged then Unknown
             else sensitivity2)
      in \<lparr>sr_sensitivity = sensitivity3, sr_flags = flags5\<rparr>)"

section \<open>Processing queue (processingQueue.js: VideoProcessingQueue)\<close>

text \<open>
  The queue object runs on JavaScript's single-threaded event loop: each method call, each
  timer callback and each continuation after an \<open>await\<close> runs to completion before the
  next one starts. The state below holds the fields of the object and, because the claims
  are about what the scheduler does over time, the part of the event loop that belongs to
  it: the number of pending \<open>setTimeout\<close>/\<open>setImmediate\<close> callbacks of \<open>processNext\<close>
  and the activations of \<open>processNext\<close> that are suspended at
  \<open>await this.processJob(videoId)\<close>. The \<open>Set\<close> of ids being processed is a list
  without duplicates in insertion order. \<open>maxConcurrent\<close> is the integer that
  \<open>parseInt\<close> returned. Console output of the queue methods is left out.
\<close>

type_synonym videoId = string

datatype queue_event =
    EvEnqueued videoId
  | EvStarted
  | EvStopped
  | EvProcessing videoId
  | EvCompleted videoId
  | EvCleared
  | EvSuccess videoId
  | EvFailed videoId string
  | EvError videoId string

record queue_state =
  queue :: "videoId list"
  processing :: "videoId list"
  maxConcurrent :: int
  isRunning :: bool
  timers :: nat
  awaiting :: "videoId list"
  emitted :: "queue_event list"

definition constructor_queue :: "int \<Rightarrow> queue_state" where
  "constructor_queue mc =
     \<lparr>queue = [], processing = [], maxConcurrent = mc, isRunning = False,
      timers = 0, awaiting = [], emitted = []\<rparr>"

definition set_add :: "'a \<Rightarrow> 'a list \<Rightarrow> 'a list" where
  "set_add x xs = (if x \<in> set xs then xs else xs @ [x])"

definition set_delete :: "'a \<Rightarrow> 'a list \<Rightarrow> 'a list" where
  "set_delete x xs = removeAll x xs"

definition emit :: "queue_event \<Rightarrow> queue_state \<Rightarrow> queue_state" where
  "emit e s = s\<lparr>emitted := emitted s @ [e]\<rparr>"

definition schedule :: "queue_state \<Rightarrow> queue_state" where
  "schedule s = s\<lparr>timers := timers s + 1\<rparr>"

text \<open>
  \<open>processNext\<close> up to its \<open>await\<close>. \<open>queue.shift()\<close> removes the head also when the
  head is falsy; for string ids the falsy one is the empty string, which the test
  \<open>!videoId\<close> treats like an empty queue.
\<close>

definition processNext :: "queue_state \<Rightarrow> queue_state" where
  "processNext s =
     (if \<not> isRunning s then s
      else if int (length (processing s)) \<ge> maxConcurrent s then schedule s
      else (case queue s of
              [] \<Rightarrow> schedule s
            | videoId # rest \<Rightarrow>
                if videoId = [] then schedule (s\<lparr>queue := rest\<rparr>)
                else (emit (EvProcessing videoId)
                        (s\<lparr>queue := rest, processing := set_add videoId (processing s)\<rparr>))
                     \<lparr>awaiting := awaiting s @ [videoId]\<rparr>))"

text \<open>
  The rest of \<open>processNext\<close>, run when the awaited job body has settled (returned or
  thrown: the \<open>catch\<close> only logs): the \<open>finally\<close> block.
\<close>

definition processNext_finally :: "videoId \<Rightarrow> queue_state \<Rightarrow> queue_state" where
  "processNext_finally videoId s =
     schedule (emit (EvCompleted videoId)
       (s\<lparr>processing := set_delete videoId (processing s),
          awaiting := remove1 videoId (awaiting s)\<rparr>))"

definition start :: "queue_state \<Rightarrow> queue_state" where
  "start s =
     (if isRunning s then s
      else processNext (emit EvStarted (s\<lparr>isRunning := True\<rparr>)))"

definition stop :: "queue_state \<Rightarrow> queue_state" where
  "stop s = emit EvStopped (s\<lparr>isRunning := False\<rparr>)"

definition enqueue :: "videoId \<Rightarrow> queue_state \<Rightarrow> queue_state" where
  "enqueue videoId s =
     (if videoId \<notin> set (queue s) \<and> videoId \<notin> set (processing s)
      then (let s1 = emit (EvEnqueued videoId) (s\<lparr>queue := queue s @ [videoId]\<rparr>)
            in if \<not> isRunning s1 then start s1 else s1)
      else s)"

definition clear :: "queue_state \<Rightarrow> queue_state" where
  "clear s = emit EvCleared (s\<lparr>queue := [], processing := []\<rparr>)"

record queue_stats =
  st_queued :: nat
  st_processing :: nat
  st_maxConcurrent :: int
  st_isRunning :: bool

definition getStats :: "queue_state \<Rightarrow> queue_stats" where
  "getStats s =
     \<lparr>st_queued = length (queue s), st_processing = length (processing s),
      st_maxConcurrent = maxConcurrent s, st_isRunning = isRunning s\<rparr>"

text \<open>
  What can happen to the queue: a call of one of its methods, a pending callback of
  \<open>processNext\<close> firing, or an awaited job body settling. A callback that is not pending
  and a job that is not awaited cannot occur; such an action leaves the state as it is.
\<close>

datatype action =
    Enqueue videoId
  | Start
  | Stop
  | Clear
  | TimerFires
  | JobSettles videoId

fun step :: "action \<Rightarrow> queue_state \<Rightarrow> queue_state" where
  "step (Enqueue videoId) s = enqueue videoId s"
| "step Start s = start s"
| "step Stop s = stop s"
| "step Clear s = clear s"
| "step TimerFires s =
     (if timers s > 0 then processNext (s\<lparr>timers := timers s - 1\<rparr>) else s)"
| "step (JobSettles videoId) s =
     (if videoId \<in> set (awaiting s) then processNext_finally videoId s else s)"

definition run :: "action list \<Rightarrow> queue_state \<Rightarrow> queue_state" where
  "run acts s = foldl (\<lambda>st a. step a st) s acts"

section \<open>Media processing (videoProcessing.js: extractMetadata, processVideo)\<close>

text \<open>
  The calls that leave the process (record store, blob store, file system, the ffmpeg
  tools, the socket, the console) are recorded in order as a list of effects. Whether such
  a call resolves or rejects is not decided by the code; it is given from outside as an
  \<open>outcome\<close>. Timestamps in payloads and file names are left out.
\<close>

datatype 'a outcome = Resolves 'a | Rejects string

datatype video_status = Uploaded | Processing | Ready | Failed

datatype log_level = LogInfo | LogWarn | LogError

datatype notification =
    Progress videoId int
  | Status videoId video_status "sensitivity_level option" "string list"
  | ErrorNote videoId string

datatype effect =
    FindById videoId
  | Save videoId
  | Emit queue_event
  | Notify string notification
  | Console log_level string
  | Download
  | WriteFile
  | Ffprobe
  | Screenshots real
  | ReadFile
  | Upload string
  | Unlink

record video =
  v_id :: videoId
  v_title :: string
  v_description :: string
  v_ownerUserId :: string
  v_status :: video_status
  v_sensitivity :: sensitivity_level
  v_storedFilename :: string
  v_duration :: "int option"
  v_resolution :: "(int \<times> int) option"
  v_codec :: "string option"
  v_format :: "string option"
  v_thumbnailFilename :: "string option"
  v_sensitivityFlags :: "string list"
  v_processingError :: "string option"

record probe_stream =
  ps_codec_type :: string
  ps_codec_name :: string
  ps_width :: int
  ps_height :: int

record probe_data =
  pd_duration :: real
  pd_size :: real
  pd_bit_rate :: real
  pd_format_name :: string
  pd_streams :: "probe_stream list"

text \<open>
  \<open>extractMetadata\<close> applied to what \<open>ffprobe\<close> reported. The frame rate, the bit rate
  of the video stream and the sample rate and channels of the audio stream are copied
  through by the source and read by nothing below; they are not modelled.
\<close>

definition extractMetadata :: "probe_data outcome \<Rightarrow> metadata outcome" where
  "extractMetadata probe =
     (case probe of
        Rejects msg \<Rightarrow> Rejects (''Failed to extract metadata: '' @ msg)
      | Resolves p \<Rightarrow>
          (case find (\<lambda>st. ps_codec_type st = ''video'') (pd_streams p) of
             None \<Rightarrow> Rejects ''No video stream found''
           | Some videoStream \<Rightarrow>
               Resolves
                 \<lparr>md_duration = pd_duration p, md_size = pd_size p,
                  md_bitRate = pd_bit_rate p, md_format = pd_format_name p,
                  md_video = Some \<lparr>vs_codec = ps_codec_name videoStream,
                                    vs_width = ps_width videoStream,
                                    vs_height = ps_height videoStream\<rparr>,
                  md_audio =
                    map_option (\<lambda>audioStream. \<lparr>as_codec = ps_codec_name audioStream\<rparr>)
                      (find (\<lambda>st. ps_codec_type st = ''audio'') (pd_streams p))\<rparr>))"

text \<open>\<open>Math.round\<close>: the nearest integer, a tie going towards plus infinity.\<close>

definition Math_round :: "real \<Rightarrow> int" where
  "Math_round x = \<lfloor>x + 1 / 2\<rfloor>"

text \<open>The timestamp \<open>processVideo\<close> passes to \<open>generateThumbnail\<close>.\<close>

definition thumbnailTimestamp :: "metadata \<Rightarrow> real" where
  "thumbnailTimestamp m = min 1 (md_duration m / 2)"

text \<open>\<open>storedFilename.replace(/\.[^.]+$/, '.jpg')\<close>: a last extension becomes \<open>.jpg\<close>.\<close>

definition replaceExtension :: "string \<Rightarrow> string" where
  "replaceExtension name =
     (let ext = rev (takeWhile (\<lambda>c. c \<noteq> CHR ''.'') (rev name));
          stem = take (length name - length ext) name
      in if stem \<noteq> [] \<and> ext \<noteq> [] then butlast stem @ ''.jpg'' else name)"

record pv_metadata =
  pm_duration :: int
  pm_resolution :: "int \<times> int"
  pm_codec :: string
  pm_format :: string
  pm_bitRate :: real
  pm_hasAudio :: bool

datatype pv_result =
    PvSuccess pv_metadata string string sensitivity_level "string list"
  | PvFailure string

record pv_env =
  io_download :: "unit outcome"
  io_writeFile :: "unit outcome"
  io_ffprobe :: "probe_data outcome"
  io_screenshots :: "unit outcome"
  io_readFile :: "unit outcome"
  io_upload :: "string outcome"

text \<open>
  The \<open>catch\<close> block of \<open>processVideo\<close>: log, delete both temporary files, fail.
  In \<open>processVideo\<close> the metadata always has a video stream (\<open>extractMetadata\<close>
  rejects otherwise); the \<open>None\<close> branches for it in the result only make the
  definition total.
\<close>

definition pv_catch :: "string \<Rightarrow> effect list \<Rightarrow> pv_result \<times> effect list" where
  "pv_catch msg done =
     (PvFailure msg, done @ [Console LogError ''Video processing error:'', Unlink, Unlink])"

definition processVideo :: "video \<Rightarrow> pv_env \<Rightarrow> pv_result \<times> effect list" where
  "processVideo video env =
     (let eff1 = [Console LogInfo ''Downloading video from GridFS'', Download] in
      (case io_download env of
         Rejects msg \<Rightarrow> pv_catch (''Failed to download from GridFS: '' @ msg) eff1
       | Resolves buffer \<Rightarrow>
      (let eff2 = eff1 @ [WriteFile] in
      (case io_writeFile env of
         Rejects msg \<Rightarrow> pv_catch msg eff2
       | Resolves written \<Rightarrow>
      (let eff3 = eff2 @ [Ffprobe] in
      (case extractMetadata (io_ffprobe env) of
         Rejects msg \<Rightarrow> pv_catch msg eff3
       | Resolves metadata \<Rightarrow>
      (let eff4 = eff3 @ [Screenshots (thumbnailTimestamp metadata)] in
      (case io_screenshots env of
         Rejects msg \<Rightarrow> pv_catch (''Failed to generate thumbnail: '' @ msg) eff4
       | Resolves shot \<Rightarrow>
      (let eff5 = eff4 @ [ReadFile] in
      (case io_readFile env of
         Rejects msg \<Rightarrow> pv_catch msg eff5
       | Resolves thumbnailBuffer \<Rightarrow>
      (let thumbnailFilename = ''thumb-'' @ replaceExtension (v_storedFilename video);
           eff6 = eff5 @ [Upload thumbnailFilename] in
      (case io_upload env of
         Rejects msg \<Rightarrow> pv_catch (''GridFS upload failed: '' @ msg) eff6
       | Resolves fileId \<Rightarrow>
      (let sensitivityAnalysis =
             analyzeSensitivity metadata (v_title video) (v_description video)
       in (PvSuccess
             \<lparr>pm_duration = Math_round (md_duration metadata),
              pm_resolution =
                (case md_video metadata of
                   None \<Rightarrow> (0, 0) | Some v \<Rightarrow> (vs_width v, vs_height v)),
              pm_codec = (case md_video metadata of None \<Rightarrow> [] | Some v \<Rightarrow> vs_codec v),
              pm_format = md_format metadata,
              pm_bitRate = md_bitRate metadata,
              pm_hasAudio = (md_audio metadata \<noteq> None)\<rparr>
             thumbnailFilename fileId
             (sr_sensitivity sensitivityAnalysis) (sr_flags sensitivityAnalysis),
           eff6 @ [Unlink, Unlink]))))))))))))))"

section \<open>Job body (processingQueue.js: processJob; socket.js: emitProcessing...)\<close>

text \<open>
  The three emit helpers of the socket module skip the emission, with a warning, while no
  Socket.io instance is attached to the queue (\<open>this.io\<close> is \<open>null\<close>).
\<close>

definition userRoom :: "string \<Rightarrow> string" where
  "userRoom userId = ''user:'' @ userId"

definition emitProcessingProgress :: "bool \<Rightarrow> string \<Rightarrow> videoId \<Rightarrow> real \<Rightarrow> effect list" where
  "emitProcessingProgress io userId videoId percent =
     (if \<not> io then [Console LogWarn ''Socket.io not initialized, skipping progress emission'']
      else [Notify (userRoom userId) (Progress videoId (Math_round percent)),
            Console LogInfo ''Emitted progress''])"

definition emitProcessingStatus ::
  "bool \<Rightarrow> string \<Rightarrow> videoId \<Rightarrow> video_status \<Rightarrow> sensitivity_level option \<Rightarrow> string list
     \<Rightarrow> effect list" where
  "emitProcessingStatus io userId videoId status sensitivity sensitivityFlags =
     (if \<not> io then [Console LogWarn ''Socket.io not initialized, skipping status emission'']
      else [Notify (userRoom userId) (Status videoId status sensitivity sensitivityFlags),
            Console LogInfo ''Emitted status''])"

definition emitProcessingError :: "bool \<Rightarrow> string \<Rightarrow> videoId \<Rightarrow> string \<Rightarrow> effect list" where
  "emitProcessingError io userId videoId err =
     (if \<not> io then [Console LogWarn ''Socket.io not initialized, skipping error emission'']
      else [Notify (userRoom userId) (ErrorNote videoId err),
            Console LogInfo ''Emitted error''])"

text \<open>
  The record store is a map from ids to documents; \<open>video.save()\<close> that resolves writes
  the document held in memory, one that rejects writes nothing. \<open>job_env\<close> gives the
  outcome of each awaited call of the job body, and whether a listener for the queue's
  \<open>error\<close> event is registered (an \<open>EventEmitter\<close> throws when \<open>error\<close> is emitted
  and nobody listens).
\<close>

type_synonym store = "videoId \<rightharpoonup> video"

record job_env =
  db_find1 :: "unit outcome"
  db_save1 :: "unit outcome"
  media :: pv_env
  db_save2 :: "unit outcome"
  db_find2 :: "unit outcome"
  db_save3 :: "unit outcome"
  errorListener :: bool

datatype job_outcome = Returned | Threw string

text \<open>
  The \<open>try\<close> block of \<open>processJob\<close>. The first component is \<open>None\<close> when the block ran
  to its end or returned, and the message of the error when an awaited call rejected.
\<close>

definition processJob_try ::
  "bool \<Rightarrow> store \<Rightarrow> videoId \<Rightarrow> job_env \<Rightarrow> string option \<times> store \<times> effect list" where
  "processJob_try io db videoId env =
     (case db_find1 env of
        Rejects msg \<Rightarrow> (Some msg, db, [FindById videoId])
      | Resolves looked \<Rightarrow>
     (case db videoId of
        None \<Rightarrow>
          (None, db,
           [FindById videoId, Console LogError (''Video '' @ videoId @ '' not found in database'')])
      | Some found \<Rightarrow>
     (let userId = v_ownerUserId found;
          video1 = found\<lparr>v_status := Processing\<rparr>;
          eff1 = [FindById videoId, Save videoId] in
     (case db_save1 env of
        Rejects msg \<Rightarrow> (Some msg, db, eff1)
      | Resolves saved \<Rightarrow>
     (let db1 = db(videoId \<mapsto> video1);
          eff2 = eff1
            @ emitProcessingStatus io userId videoId Processing None []
            @ emitProcessingProgress io userId videoId 0
            @ emitProcessingProgress io userId videoId 25;
          result = processVideo video1 (media env);
          eff3 = eff2 @ snd result @ emitProcessingProgress io userId videoId 75 in
     (case fst result of
        PvSuccess md thumbnail fileId sensitivity sensitivityFlags \<Rightarrow>
          (let video2 = video1
                 \<lparr>v_duration := Some (pm_duration md),
                  v_resolution := Some (pm_resolution md),
                  v_codec := Some (pm_codec md),
                  v_format := Some (pm_format md),
                  v_thumbnailFilename := Some thumbnail,
                  v_sensitivity := sensitivity,
                  v_sensitivityFlags := sensitivityFlags,
                  v_status := Ready\<rparr>
           in (case db_save2 env of
                 Rejects msg \<Rightarrow> (Some msg, db1, eff3 @ [Save videoId])
               | Resolves saved2 \<Rightarrow>
                   (None, db1(videoId \<mapsto> video2),
                    eff3 @ [Save videoId]
                      @ emitProcessingProgress io userId videoId 100
                      @ emitProcessingStatus io userId videoId Ready
                          (Some sensitivity) sensitivityFlags
                      @ [Console LogInfo (''Video '' @ videoId @ '' processed successfully''),
                         Emit (EvSuccess videoId)])))
      | PvFailure err \<Rightarrow>
          (let video2 = video1\<lparr>v_status := Failed, v_processingError := Some err\<rparr>
           in (case db_save2 env of
                 Rejects msg \<Rightarrow> (Some msg, db1, eff3 @ [Save videoId])
               | Resolves saved2 \<Rightarrow>
                   (None, db1(videoId \<mapsto> video2),
                    eff3 @ [Save videoId]
                      @ emitProcessingError io userId videoId err
                      @ emitProcessingStatus io userId videoId Failed None []
                      @ [Console LogError (''Video '' @ videoId @ '' processing failed:''),
                         Emit (EvFailed videoId err)])))))))))"

text \<open>The \<open>catch\<close> block of \<open>processJob\<close>: try to mark the stored record as failed.\<close>

definition processJob_catch ::
  "bool \<Rightarrow> store \<Rightarrow> videoId \<Rightarrow> job_env \<Rightarrow> string \<Rightarrow> store \<times> effect list" where
  "processJob_catch io db videoId env msg =
     (case db_find2 env of
        Rejects msg2 \<Rightarrow>
          (db, [FindById videoId, Console LogError ''Failed to update video status:''])
      | Resolves looked \<Rightarrow>
     (case db videoId of
        None \<Rightarrow> (db, [FindById videoId])
      | Some found \<Rightarrow>
     (let video1 = found\<lparr>v_status := Failed, v_processingError := Some msg\<rparr> in
     (case db_save3 env of
        Rejects msg3 \<Rightarrow>
          (db, [FindById videoId, Save videoId,
                Console LogError ''Failed to update video status:''])
      | Resolves saved \<Rightarrow>
          (db(videoId \<mapsto> video1),
           [FindById videoId, Save videoId]
             @ emitProcessingError io (v_ownerUserId found) videoId msg
             @ emitProcessingStatus io (v_ownerUserId found) videoId Failed None [])))))"

definition processJob ::
  "bool \<Rightarrow> store \<Rightarrow> videoId \<Rightarrow> job_env \<Rightarrow> job_outcome \<times> store \<times> effect list" where
  "processJob io db videoId env =
     (let eff0 = [Console LogInfo (''Processing video '' @ videoId @ ''...'')] in
      case processJob_try io db videoId env of
        (None, db1, eff1) \<Rightarrow> (Returned, db1, eff0 @ eff1)
      | (Some msg, db1, eff1) \<Rightarrow>
          (let eff2 = eff0 @ eff1
                 @ [Console LogError (''Fatal error processing video '' @ videoId @ '':'')];
               fallback = processJob_catch io db1 videoId env msg;
               eff3 = eff2 @ snd fallback @ [Emit (EvError videoId msg)]
           in (if errorListener env then Returned else Threw ''Unhandled error.'',
               fst fallback, eff3)))"

section \<open>Reading a trace of effects\<close>

fun isMediaCall :: "effect \<Rightarrow> bool" where
  "isMediaCall Download = True"
| "isMediaCall Ffprobe = True"
| "isMediaCall (Screenshots ts) = True"
| "isMediaCall (Upload name) = True"
| "isMediaCall e = False"

fun isEmit :: "effect \<Rightarrow> bool" where
  "isEmit (Emit ev) = True"
| "isEmit e = False"

fun screenshotTimes :: "effect list \<Rightarrow> real list" where
  "screenshotTimes [] = []"
| "screenshotTimes (Screenshots ts # es) = ts # screenshotTimes es"
| "screenshotTimes (e # es) = screenshotTimes es"

fun notifications :: "effect list \<Rightarrow> (string \<times> notification) list" where
  "notifications [] = []"
| "notifications (Notify room n # es) = (room, n) # notifications es"
| "notifications (e # es) = notifications es"

fun resultDuration :: "pv_result \<Rightarrow> int option" where
  "resultDuration (PvSuccess md thumbnail fileId sensitivity sensitivityFlags) =
     Some (pm_duration md)"
| "resultDuration (PvFailure err) = None"

section \<open>Terminal configurations of a record\<close>

text \<open>
  The two configurations the specification asks of a record after its job: \<open>ready\<close>
  with the derived fields set and no processing error, or \<open>failed\<close> with a processing
  error and the derived fields unset. The derived fields that can be unset are the
  duration, the resolution, the codec, the format and the thumbnail name (the
  sensitivity level and the flag list always hold a value).
\<close>

definition derivedPopulated :: "video \<Rightarrow> bool" where
  "derivedPopulated v \<longleftrightarrow>
     v_duration v \<noteq> None \<and> v_resolution v \<noteq> None \<and> v_codec v \<noteq> None \<and>
     v_format v \<noteq> None \<and> v_thumbnailFilename v \<noteq> None"

definition derivedUnpopulated :: "video \<Rightarrow> bool" where
  "derivedUnpopulated v \<longleftrightarrow>
     v_duration v = None \<and> v_resolution v = None \<and> v_codec v = None \<and>
     v_format v = None \<and> v_thumbnailFilename v = None"

definition terminalReady :: "video \<Rightarrow> bool" where
  "terminalReady v \<longleftrightarrow>
     v_status v = Ready \<and> derivedPopulated v \<and> v_processingError v = None"

definition terminalFailed :: "video \<Rightarrow> bool" where
  "terminalFailed v \<longleftrightarrow>
     v_status v = Failed \<and> v_processingError v \<noteq> None \<and> derivedUnpopulated v"

section \<open>Invariants of the queue\<close>

definition bounded :: "queue_state \<Rightarrow> bool" where
  "bounded s \<longleftrightarrow>
     0 \<le> maxConcurrent s \<and> int (length (processing s)) \<le> maxConcurrent s"

definition no_duplicates :: "queue_state \<Rightarrow> bool" where
  "no_duplicates s \<longleftrightarrow>
     distinct (queue s) \<and> distinct (processing s) \<and>
     set (queue s) \<inter> set (processing s) = {}"

text \<open>
  With one activation of \<open>processNext\<close> alive, it is either waiting for a callback or
  suspended at the \<open>await\<close> of one job body, and only that job is marked as processing.
\<close>

definition single_loop :: "queue_state \<Rightarrow> bool" where
  "single_loop s \<longleftrightarrow>
     timers s + length (awaiting s) = (if isRunning s then 1 else 0) \<and>
     set (processing s) \<subseteq> set (awaiting s) \<and> distinct (processing s)"

section \<open>Example inputs\<close>

text \<open>A record as the upload handler creates it, and one whose earlier job failed.\<close>

definition freshVideo :: video where
  "freshVideo =
     \<lparr>v_id = ''v1'', v_title = ''Holiday'', v_description = ''Beach walk'',
      v_ownerUserId = ''u7'', v_status = Uploaded, v_sensitivity = Unknown,
      v_storedFilename = ''clip-001.mp4'',
      v_duration = None, v_resolution = None, v_codec = None, v_format = None,
      v_thumbnailFilename = None, v_sensitivityFlags = [], v_processingError = None\<rparr>"

definition failedVideo :: video where
  "failedVideo =
     freshVideo\<lparr>v_status := Failed, v_processingError := Some ''No video stream found''\<rparr>"

text \<open>A record whose earlier job succeeded.\<close>

definition readyVideo :: video where
  "readyVideo =
     freshVideo\<lparr>v_status := Ready, v_sensitivity := Safe, v_duration := Some 60,
       v_resolution := Some (1920, 1080), v_codec := Some ''h264'', v_format := Some ''mp4'',
       v_thumbnailFilename := Some ''thumb-clip-001.jpg''\<rparr>"

text \<open>What \<open>ffprobe\<close> reports for a 1080p file of the given duration with sound.\<close>

definition probeOf :: "real \<Rightarrow> probe_data" where
  "probeOf d =
     \<lparr>pd_duration = d, pd_size = 50000000, pd_bit_rate = 800000, pd_format_name = ''mp4'',
      pd_streams =
        [\<lparr>ps_codec_type = ''audio'', ps_codec_name = ''aac'', ps_width = 0, ps_height = 0\<rparr>,
         \<lparr>ps_codec_type = ''video'', ps_codec_name = ''h264'',
          ps_width = 1920, ps_height = 1080\<rparr>]\<rparr>"

text \<open>Every media call resolves; every record-store call resolves.\<close>

definition mediaOk :: "real \<Rightarrow> pv_env" where
  "mediaOk d =
     \<lparr>io_download = Resolves (), io_writeFile = Resolves (),
      io_ffprobe = Resolves (probeOf d), io_screenshots = Resolves (),
      io_readFile = Resolves (), io_upload = Resolves ''f42''\<rparr>"

definition mediaDownloadFails :: pv_env where
  "mediaDownloadFails = (mediaOk 60)\<lparr>io_download := Rejects ''FileNotFound''\<rparr>"

definition storeOk :: "pv_env \<Rightarrow> job_env" where
  "storeOk m =
     \<lparr>db_find1 = Resolves (), db_save1 = Resolves (), media = m, db_save2 = Resolves (),
      db_find2 = Resolves (), db_save3 = Resolves (), errorListener = True\<rparr>"

text \<open>A silent clip of zero length, as a probe of an empty container reports it.\<close>

definition zeroLengthClip :: metadata where
  "zeroLengthClip =
     \<lparr>md_duration = 0, md_size = 4096, md_bitRate = 0, md_format = ''mp4'',
      md_video = Some \<lparr>vs_codec = ''h264'', vs_width = 1920, vs_height = 1080\<rparr>,
      md_audio = None\<rparr>"

text \<open>The metadata \<open>extractMetadata\<close> builds from the report \<open>probeOf d\<close>.\<close>

definition metadataOf :: "real \<Rightarrow> metadata" where
  "metadataOf d =
     \<lparr>md_duration = d, md_size = 50000000, md_bitRate = 800000, md_format = ''mp4'',
      md_video = Some \<lparr>vs_codec = ''h264'', vs_width = 1920, vs_height = 1080\<rparr>,
      md_audio = Some \<lparr>as_codec = ''aac''\<rparr>\<rparr>"

text \<open>The record store is unreachable for the whole job.\<close>

definition storeDown :: "pv_env \<Rightarrow> job_env" where
  "storeDown m =
     \<lparr>db_find1 = Rejects ''ECONNREFUSED'', db_save1 = Rejects ''ECONNREFUSED'', media = m,
      db_save2 = Rejects ''ECONNREFUSED'', db_find2 = Rejects ''ECONNREFUSED'',
      db_save3 = Rejects ''ECONNREFUSED'', errorListener = True\<rparr>"

section \<open>Properties of the classifier\<close>

lemma keyword_flag_present:
  assumes "keywordMatch title description = Some k"
  shows "sr_flags (analyzeSensitivity m title description) \<noteq> []"
  using assms by (simp add: analyzeSensitivity_def Let_def split del: if_split)

lemma level_from_flags:
  "sr_sensitivity (analyzeSensitivity m title description) =
     (let fl = sr_flags (analyzeSensitivity m title description);
          s1 = (case keywordMatch title description of None \<Rightarrow> Safe | Some _ \<Rightarrow> Flagged);
          s2 = (if length fl \<ge> 3 \<and> s1 \<noteq> Flagged then Flagged else s1)
      in if length fl = 0 then Safe else if s2 \<noteq> Flagged then Unknown else s2)"
  unfolding analyzeSensitivity_def Let_def
  by (simp only: sensitivity_result.select_convs)

text \<open>
  C6. The level returned by \<open>analyzeSensitivity\<close> is \<open>flagged\<close> when a keyword matched;
  otherwise \<open>safe\<close> when the flag list is empty, \<open>flagged\<close> when it has three or more
  entries, and \<open>unknown\<close> in the remaining case.
\<close>

theorem final_level_determination:
  "sr_sensitivity (analyzeSensitivity m title description) =
     (if keywordMatch title description \<noteq> None then Flagged
      else if sr_flags (analyzeSensitivity m title description) = [] then Safe
      else if length (sr_flags (analyzeSensitivity m title description)) \<ge> 3 then Flagged
      else Unknown)"
proof (cases "keywordMatch title description")
  case None
  then show ?thesis
    by (simp add: level_from_flags [of m title description] Let_def)
next
  case (Some k)
  from keyword_flag_present [OF Some, of m]
  show ?thesis
    by (simp add: level_from_flags [of m title description] Some Let_def)
qed

text \<open>
  C9. When the duration is zero or negative the guard of rule 4 is false: the quotient
  \<open>size / duration\<close> is not computed, the low-bitrate flag is not among the flags, and
  the whole result does not depend on the size.
\<close>

theorem no_bitrate_proxy_without_duration:
  assumes "md_duration m \<le> 0"
  shows "sizePerSecond m = None \<and>
         lowBitrateFlag \<notin> set (sr_flags (analyzeSensitivity m title description)) \<and>
         analyzeSensitivity (m\<lparr>md_size := s\<rparr>) title description =
           analyzeSensitivity m title description"
proof -
  have guard: "sizePerSecond m = None" "sizePerSecond (m\<lparr>md_size := s\<rparr>) = None"
    using assms by (simp_all add: sizePerSecond_def)
  have absent: "lowBitrateFlag \<notin> set (sr_flags (analyzeSensitivity m title description))"
    using assms guard
    by (auto simp: analyzeSensitivity_def lowBitrateFlag_def Let_def split: option.splits)
  have same: "analyzeSensitivity (m\<lparr>md_size := s\<rparr>) title description =
              analyzeSensitivity m title description"
    using assms guard by (simp add: analyzeSensitivity_def Let_def)
  from guard(1) absent same show ?thesis by blast
qed

theorem no_bitrate_proxy_without_duration_witness:
  "md_duration zeroLengthClip \<le> 0 \<and>
   sizePerSecond zeroLengthClip = None \<and>
   lowBitrateFlag \<notin> set (sr_flags (analyzeSensitivity zeroLengthClip ''clip'' ''''))"
proof -
  have h: "md_duration zeroLengthClip \<le> 0"
    by (simp add: zeroLengthClip_def)
  from no_bitrate_proxy_without_duration [OF h, of "''clip''" "''''"] h
  show ?thesis by blast
qed

section \<open>Properties of the queue\<close>

subsection \<open>The bound on the processing set\<close>

lemma length_set_add: "length (set_add x xs) \<le> Suc (length xs)"
  by (simp add: set_add_def)

lemma length_set_delete: "length (set_delete x xs) \<le> length xs"
  by (simp add: set_delete_def)

lemma processNext_bounded: "bounded s \<Longrightarrow> bounded (processNext s)"
  using length_set_add [of "hd (queue s)" "processing s"]
  by (auto simp: bounded_def processNext_def schedule_def emit_def split: list.splits)

lemma processNext_maxConcurrent: "maxConcurrent (processNext s) = maxConcurrent s"
  by (simp add: processNext_def schedule_def emit_def split: list.splits)

lemma start_bounded: "bounded s \<Longrightarrow> bounded (start s)"
proof -
  assume b: "bounded s"
  then have "bounded (emit EvStarted (s\<lparr>isRunning := True\<rparr>))"
    by (simp add: bounded_def emit_def)
  then show ?thesis using b by (simp add: start_def processNext_bounded)
qed

lemma enqueue_bounded: "bounded s \<Longrightarrow> bounded (enqueue v s)"
proof -
  assume b: "bounded s"
  then have "bounded (emit (EvEnqueued v) (s\<lparr>queue := queue s @ [v]\<rparr>))"
    by (simp add: bounded_def emit_def)
  then show ?thesis using b by (simp add: enqueue_def Let_def start_bounded)
qed

lemma step_bounded: "bounded s \<Longrightarrow> bounded (step a s)"
proof (cases a)
  case (Enqueue v)
  assume "bounded s" then show ?thesis using Enqueue by (simp add: enqueue_bounded)
next
  case Start
  assume "bounded s" then show ?thesis using Start by (simp add: start_bounded)
next
  case Stop
  assume "bounded s" then show ?thesis using Stop by (simp add: stop_def emit_def bounded_def)
next
  case Clear
  assume "bounded s" then show ?thesis using Clear by (simp add: clear_def emit_def bounded_def)
next
  case TimerFires
  assume b: "bounded s"
  then have "bounded (s\<lparr>timers := timers s - 1\<rparr>)" by (simp add: bounded_def)
  then show ?thesis using b TimerFires by (simp add: processNext_bounded)
next
  case (JobSettles v)
  assume b: "bounded s"
  then show ?thesis using JobSettles length_set_delete [of v "processing s"]
    by (simp add: processNext_finally_def schedule_def emit_def bounded_def)
qed

lemma run_bounded: "bounded s \<Longrightarrow> bounded (run acts s)"
  unfolding run_def by (induction acts arbitrary: s) (simp_all add: step_bounded)

lemma step_maxConcurrent: "maxConcurrent (step a s) = maxConcurrent s"
  by (cases a)
     (simp_all add: enqueue_def start_def stop_def clear_def processNext_finally_def
        processNext_maxConcurrent schedule_def emit_def Let_def)

lemma run_maxConcurrent: "maxConcurrent (run acts s) = maxConcurrent s"
  unfolding run_def by (induction acts arbitrary: s) (simp_all add: step_maxConcurrent)

text \<open>
  C1. From the state the constructor builds, with a configured \<open>maxConcurrent\<close> that is
  not negative, after every sequence of enqueue, start, stop and clear calls, callbacks of
  the scheduler loop and job completions, the processing set holds at most
  \<open>maxConcurrent\<close> ids.
\<close>

theorem concurrency_bound:
  assumes "0 \<le> mc"
  shows "int (length (processing (run acts (constructor_queue mc)))) \<le> mc"
proof -
  have "bounded (constructor_queue mc)"
    using assms by (simp add: bounded_def constructor_queue_def)
  then have "bounded (run acts (constructor_queue mc))"
    by (rule run_bounded)
  then show ?thesis
    by (simp add: bounded_def run_maxConcurrent constructor_queue_def)
qed

text \<open>
  Stopping and starting again while a job runs leaves the earlier activation of the loop
  alive; here two activations fill both slots and the third id stays pending.
\<close>

theorem concurrency_bound_witness:
  "(0::int) \<le> 2 \<and>
   int (length (processing (run
     [Enqueue ''a'', Enqueue ''b'', Enqueue ''c'', Stop, Start, Stop, Start, TimerFires]
     (constructor_queue 2)))) \<le> 2 \<and>
   processing (run
     [Enqueue ''a'', Enqueue ''b'', Enqueue ''c'', Stop, Start, Stop, Start, TimerFires]
     (constructor_queue 2)) = [''a'', ''b'']"
proof -
  have h: "(0::int) \<le> 2" by simp
  have "processing (run
     [Enqueue ''a'', Enqueue ''b'', Enqueue ''c'', Stop, Start, Stop, Start, TimerFires]
     (constructor_queue 2)) = [''a'', ''b'']"
    by code_simp
  with h concurrency_bound [OF h,
    of "[Enqueue ''a'', Enqueue ''b'', Enqueue ''c'', Stop, Start, Stop, Start, TimerFires]"]
  show ?thesis by blast
qed

text \<open>
  The bound is on the processing set. \<open>clear\<close> empties the set while job bodies
  that were dispatched keep running, so after it the set no longer counts them: here,
  with one slot, a second job body is dispatched while the first has not settled.
\<close>

lemma clear_forgets_running_jobs:
  "awaiting (run [Enqueue ''a'', Clear, Enqueue ''b'', Stop, Start] (constructor_queue 1)) =
     [''a'', ''b''] \<and>
   processing (run [Enqueue ''a'', Clear, Enqueue ''b'', Stop, Start] (constructor_queue 1)) =
     [''b'']"
  by code_simp

subsection \<open>Enqueue\<close>

lemma processNext_no_duplicates: "no_duplicates s \<Longrightarrow> no_duplicates (processNext s)"
  by (auto simp: no_duplicates_def processNext_def schedule_def emit_def set_add_def
           split: list.splits)

lemma start_no_duplicates: "no_duplicates s \<Longrightarrow> no_duplicates (start s)"
proof -
  assume w: "no_duplicates s"
  then have "no_duplicates (emit EvStarted (s\<lparr>isRunning := True\<rparr>))"
    by (simp add: no_duplicates_def emit_def)
  then show ?thesis using w by (simp add: start_def processNext_no_duplicates)
qed

lemma enqueue_no_duplicates: "no_duplicates s \<Longrightarrow> no_duplicates (enqueue v s)"
proof (cases "v \<notin> set (queue s) \<and> v \<notin> set (processing s)")
  case True
  assume w: "no_duplicates s"
  with True have "no_duplicates (emit (EvEnqueued v) (s\<lparr>queue := queue s @ [v]\<rparr>))"
    by (simp add: no_duplicates_def emit_def)
  then show ?thesis using True by (simp add: enqueue_def Let_def start_no_duplicates)
next
  case False
  assume "no_duplicates s"
  with False show ?thesis by (auto simp: enqueue_def)
qed

lemma step_no_duplicates: "no_duplicates s \<Longrightarrow> no_duplicates (step a s)"
proof (cases a)
  case (Enqueue v)
  assume "no_duplicates s" then show ?thesis using Enqueue by (simp add: enqueue_no_duplicates)
next
  case Start
  assume "no_duplicates s" then show ?thesis using Start by (simp add: start_no_duplicates)
next
  case Stop
  assume "no_duplicates s" then show ?thesis using Stop
    by (simp add: stop_def emit_def no_duplicates_def)
next
  case Clear
  assume "no_duplicates s" then show ?thesis using Clear
    by (simp add: clear_def emit_def no_duplicates_def)
next
  case TimerFires
  assume w: "no_duplicates s"
  then have "no_duplicates (s\<lparr>timers := timers s - 1\<rparr>)" by (simp add: no_duplicates_def)
  then show ?thesis using w TimerFires by (simp add: processNext_no_duplicates)
next
  case (JobSettles v)
  assume w: "no_duplicates s"
  then show ?thesis using JobSettles
    by (auto simp: processNext_finally_def schedule_def emit_def no_duplicates_def
          set_delete_def distinct_removeAll)
qed

lemma run_no_duplicates: "no_duplicates s \<Longrightarrow> no_duplicates (run acts s)"
  unfolding run_def by (induction acts arbitrary: s) (simp_all add: step_no_duplicates)

lemma processNext_keeps:
  assumes "v \<noteq> []" and "v \<in> set (queue s) \<union> set (processing s)"
  shows "v \<in> set (queue (processNext s)) \<union> set (processing (processNext s))"
  using assms
  by (auto simp: processNext_def schedule_def emit_def set_add_def split: list.splits)

lemma enqueue_present:
  assumes "v \<noteq> []"
  shows "v \<in> set (queue (enqueue v s)) \<union> set (processing (enqueue v s))"
proof (cases "v \<notin> set (queue s) \<and> v \<notin> set (processing s)")
  case True
  let ?s1 = "emit (EvEnqueued v) (s\<lparr>queue := queue s @ [v]\<rparr>)"
  have in1: "v \<in> set (queue ?s1) \<union> set (processing ?s1)"
    by (simp add: emit_def)
  show ?thesis
  proof (cases "isRunning s")
    case True
    with \<open>v \<notin> set (queue s) \<and> v \<notin> set (processing s)\<close> show ?thesis
      by (simp add: enqueue_def Let_def emit_def)
  next
    case False
    let ?s2 = "emit EvStarted (?s1\<lparr>isRunning := True\<rparr>)"
    have "v \<in> set (queue ?s2) \<union> set (processing ?s2)"
      by (simp add: emit_def)
    from processNext_keeps [OF assms this]
    show ?thesis using False True
      by (simp add: enqueue_def Let_def start_def emit_def)
  qed
next
  case False
  then show ?thesis by (auto simp: enqueue_def)
qed

lemma count_list_distinct:
  "distinct xs \<Longrightarrow> count_list xs x = (if x \<in> set xs then 1 else 0)"
  by (induction xs) auto

text \<open>
  C2. In every state the queue can reach, enqueueing an id twice in a row leaves exactly
  one occurrence of it across the pending list and the processing set, and the second
  call returns the state unchanged (nothing is appended, nothing is emitted). Ids are
  non-empty strings: \<open>processNext\<close> takes an empty id shifted off the list for the sign
  of an empty queue and drops it.
\<close>

theorem enqueue_idempotent:
  assumes "s = run acts (constructor_queue mc)" and "videoId \<noteq> []"
  shows "enqueue videoId (enqueue videoId s) = enqueue videoId s \<and>
         count_list (queue (enqueue videoId s)) videoId +
           count_list (processing (enqueue videoId s)) videoId = 1"
proof -
  let ?s1 = "enqueue videoId s"
  have "no_duplicates (constructor_queue mc)"
    by (simp add: no_duplicates_def constructor_queue_def)
  then have "no_duplicates s"
    unfolding assms(1) by (rule run_no_duplicates)
  then have nd: "no_duplicates ?s1"
    by (rule enqueue_no_duplicates)
  have present: "videoId \<in> set (queue ?s1) \<union> set (processing ?s1)"
    using assms(2) by (rule enqueue_present)
  then have noop: "enqueue videoId ?s1 = ?s1"
    by (auto simp: enqueue_def [of videoId ?s1])
  have "count_list (queue ?s1) videoId + count_list (processing ?s1) videoId = 1"
    using nd present by (auto simp: no_duplicates_def count_list_distinct)
  with noop show ?thesis by simp
qed

theorem enqueue_idempotent_witness:
  "''b'' \<noteq> [] \<and>
   enqueue ''b'' (enqueue ''b'' (run [Enqueue ''a''] (constructor_queue 2))) =
     enqueue ''b'' (run [Enqueue ''a''] (constructor_queue 2)) \<and>
   count_list (queue (enqueue ''b'' (run [Enqueue ''a''] (constructor_queue 2)))) ''b'' +
     count_list (processing (enqueue ''b'' (run [Enqueue ''a''] (constructor_queue 2)))) ''b''
     = 1 \<and>
   queue (enqueue ''b'' (run [Enqueue ''a''] (constructor_queue 2))) = [''b''] \<and>
   processing (enqueue ''b'' (run [Enqueue ''a''] (constructor_queue 2))) = [''a'']"
proof -
  have h: "''b'' \<noteq> []" by simp
  have "queue (enqueue ''b'' (run [Enqueue ''a''] (constructor_queue 2))) = [''b'']"
    and "processing (enqueue ''b'' (run [Enqueue ''a''] (constructor_queue 2))) = [''a'']"
    by code_simp+
  with h enqueue_idempotent [OF refl h, of "[Enqueue ''a'']" 2]
  show ?thesis by blast
qed

text \<open>
  The empty id: enqueued on a stopped queue it is shifted off the list by the loop that
  the same call starts, and dropped; it is then neither pending nor being processed.
\<close>

lemma empty_id_is_dropped_by_the_loop:
  "queue (run [Enqueue ''''] (constructor_queue 2)) = [] \<and>
   processing (run [Enqueue ''''] (constructor_queue 2)) = []"
  by code_simp

subsection \<open>One activation of the loop runs one job at a time\<close>

lemma processNext_single_loop:
  assumes "timers s + length (awaiting s) = 0" and "isRunning s"
      and "set (processing s) \<subseteq> set (awaiting s)" and "distinct (processing s)"
  shows "single_loop (processNext s)"
  using assms
  by (auto simp: single_loop_def processNext_def schedule_def emit_def set_add_def
           split: list.splits)

lemma start_single_loop: "single_loop s \<Longrightarrow> single_loop (start s)"
proof (cases "isRunning s")
  case True
  assume "single_loop s" with True show ?thesis by (simp add: start_def)
next
  case False
  assume sl: "single_loop s"
  let ?s1 = "emit EvStarted (s\<lparr>isRunning := True\<rparr>)"
  from sl False have idle: "timers s = 0" "awaiting s = []"
    by (simp_all add: single_loop_def)
  with sl have "processing s = []"
    by (simp add: single_loop_def)
  with idle have "timers ?s1 + length (awaiting ?s1) = 0" "isRunning ?s1"
    "set (processing ?s1) \<subseteq> set (awaiting ?s1)" "distinct (processing ?s1)"
    by (simp_all add: emit_def)
  then have "single_loop (processNext ?s1)" by (rule processNext_single_loop)
  with False show ?thesis by (simp add: start_def)
qed

lemma enqueue_single_loop: "single_loop s \<Longrightarrow> single_loop (enqueue v s)"
proof -
  assume sl: "single_loop s"
  then have "single_loop (emit (EvEnqueued v) (s\<lparr>queue := queue s @ [v]\<rparr>))"
    by (simp add: single_loop_def emit_def)
  then show ?thesis using sl by (simp add: enqueue_def Let_def start_single_loop)
qed

lemma timer_single_loop:
  assumes "single_loop s"
  shows "single_loop (step TimerFires s)"
proof (cases "timers s > 0")
  case False
  with assms show ?thesis by simp
next
  case True
  let ?s1 = "s\<lparr>timers := timers s - 1\<rparr>"
  from assms True have run: "isRunning s"
    by (auto simp: single_loop_def split: if_splits)
  with assms have sum: "timers s + length (awaiting s) = 1"
    by (simp add: single_loop_def)
  with True have one: "timers s = 1" and "length (awaiting s) = 0"
    by linarith+
  then have aw: "awaiting s = []"
    by simp
  from assms aw have "processing s = []"
    by (simp add: single_loop_def)
  with run one aw have "timers ?s1 + length (awaiting ?s1) = 0" "isRunning ?s1"
    "set (processing ?s1) \<subseteq> set (awaiting ?s1)" "distinct (processing ?s1)"
    by simp_all
  then have "single_loop (processNext ?s1)" by (rule processNext_single_loop)
  with True show ?thesis by simp
qed

lemma settle_single_loop:
  assumes "single_loop s" and "v \<in> set (awaiting s)"
  shows "single_loop (processNext_finally v s)"
proof -
  from assms have run: "isRunning s" and one: "timers s + length (awaiting s) = 1"
    by (auto simp: single_loop_def split: if_splits)
  from one assms(2) have aw: "awaiting s = [v]" and t0: "timers s = 0"
    by (cases "awaiting s"; auto)+
  from assms(1) aw have "set (processing s) \<subseteq> {v}"
    by (simp add: single_loop_def)
  then have "removeAll v (processing s) = []"
    by (auto simp: removeAll_filter_not_eq filter_empty_conv)
  then show ?thesis using run aw t0
    by (simp add: single_loop_def processNext_finally_def schedule_def emit_def set_delete_def)
qed

lemma step_single_loop:
  assumes "single_loop s" and "a \<noteq> Stop"
  shows "single_loop (step a s)"
proof (cases a)
  case (Enqueue v)
  with assms show ?thesis by (simp add: enqueue_single_loop)
next
  case Start
  with assms show ?thesis by (simp add: start_single_loop)
next
  case Stop
  with assms show ?thesis by simp
next
  case Clear
  with assms show ?thesis by (simp add: clear_def emit_def single_loop_def)
next
  case TimerFires
  with assms show ?thesis by (simp only: timer_single_loop)
next
  case (JobSettles v)
  with assms show ?thesis by (simp add: settle_single_loop)
qed

lemma run_single_loop:
  "single_loop s \<Longrightarrow> Stop \<notin> set acts \<Longrightarrow> single_loop (run acts s)"
  unfolding run_def by (induction acts arbitrary: s) (auto simp: step_single_loop)

lemma single_loop_one_job: "single_loop s \<Longrightarrow> length (processing s) \<le> 1"
proof -
  assume sl: "single_loop s"
  then have "length (awaiting s) \<le> 1"
    by (auto simp: single_loop_def split: if_splits)
  moreover from sl have "card (set (processing s)) \<le> card (set (awaiting s))"
    by (simp add: single_loop_def card_mono)
  moreover from sl have "card (set (processing s)) = length (processing s)"
    by (simp add: single_loop_def distinct_card)
  moreover have "card (set (awaiting s)) \<le> length (awaiting s)"
    by (rule card_length)
  ultimately show ?thesis by linarith
qed

text \<open>
  C4. \<open>processNext\<close> awaits the job body it dispatched and calls itself again only in its
  \<open>finally\<close> block. So as long as the loop was started once (no stop followed by a new
  start), at most one job is in the processing set, whatever \<open>maxConcurrent\<close> is: the
  loop does not take a second job while one runs.
\<close>

theorem loop_awaits_each_job:
  assumes "Stop \<notin> set acts"
  shows "length (processing (run acts (constructor_queue mc))) \<le> 1"
proof -
  have "single_loop (constructor_queue mc)"
    by (simp add: single_loop_def constructor_queue_def)
  from run_single_loop [OF this assms] show ?thesis
    by (rule single_loop_one_job)
qed

text \<open>
  With two slots and two pending ids, the loop takes the first id and is then suspended:
  no callback is pending, the second id stays in the list.
\<close>

theorem loop_awaits_each_job_witness:
  "Stop \<notin> set [Start, Enqueue ''a'', Enqueue ''b'', TimerFires] \<and>
   length (processing
     (run [Start, Enqueue ''a'', Enqueue ''b'', TimerFires] (constructor_queue 2))) \<le> 1 \<and>
   run [Start, Enqueue ''a'', Enqueue ''b'', TimerFires] (constructor_queue 2) =
     \<lparr>queue = [''b''], processing = [''a''], maxConcurrent = 2, isRunning = True,
      timers = 0, awaiting = [''a''],
      emitted = [EvStarted, EvEnqueued ''a'', EvEnqueued ''b'', EvProcessing ''a'']\<rparr>"
proof -
  have h: "Stop \<notin> set [Start, Enqueue ''a'', Enqueue ''b'', TimerFires]" by simp
  have "run [Start, Enqueue ''a'', Enqueue ''b'', TimerFires] (constructor_queue 2) =
     \<lparr>queue = [''b''], processing = [''a''], maxConcurrent = 2, isRunning = True,
      timers = 0, awaiting = [''a''],
      emitted = [EvStarted, EvEnqueued ''a'', EvEnqueued ''b'', EvProcessing ''a'']\<rparr>"
    by code_simp
  with h loop_awaits_each_job [OF h, of 2] show ?thesis by blast
qed

section \<open>Properties of media processing\<close>

lemma notifications_append: "notifications (xs @ ys) = notifications xs @ notifications ys"
  by (induction xs rule: notifications.induct) simp_all

lemma screenshotTimes_append:
  "screenshotTimes (xs @ ys) = screenshotTimes xs @ screenshotTimes ys"
  by (induction xs rule: screenshotTimes.induct) simp_all

lemma processVideo_no_notifications: "notifications (snd (processVideo video env)) = []"
  by (simp add: processVideo_def Let_def pv_catch_def notifications_append
        split: outcome.splits)

lemma processVideo_screenshot:
  assumes "io_download env = Resolves u" and "io_writeFile env = Resolves w"
      and "extractMetadata (io_ffprobe env) = Resolves m"
  shows "screenshotTimes (snd (processVideo video env)) = [thumbnailTimestamp m]"
  using assms
  by (simp add: processVideo_def Let_def pv_catch_def screenshotTimes_append
        split: outcome.splits)

lemma processVideo_duration:
  assumes "fst (processVideo video env) = PvSuccess md thumbnail fileId sensitivity flags"
  shows "\<exists>m. extractMetadata (io_ffprobe env) = Resolves m \<and>
             pm_duration md = Math_round (md_duration m)"
  using assms
  by (auto simp: processVideo_def Let_def pv_catch_def split: outcome.splits)

lemma extractMetadata_duration:
  "extractMetadata probe = Resolves m \<Longrightarrow> \<exists>p. probe = Resolves p \<and> md_duration m = pd_duration p"
  by (auto simp: extractMetadata_def split: outcome.splits option.splits)

lemma extractMetadata_probeOf: "extractMetadata (Resolves (probeOf d)) = Resolves (metadataOf d)"
  by (simp add: extractMetadata_def probeOf_def metadataOf_def)

lemma round_vs_truncate: "\<lfloor>x + 1 / 2\<rfloor> = \<lfloor>x\<rfloor> \<longleftrightarrow> frac x < 1 / 2" for x :: real
  by (simp add: floor_add)

text \<open>
  C7 (as the code has it). Once the download, the write of the temporary file and the
  inspection have succeeded, \<open>processVideo\<close> asks for one still frame, at
  \<open>min(1, duration / 2)\<close> seconds: the midpoint for a video of at most two seconds, the
  first second for every longer one. For a duration that is not negative the timestamp
  does not exceed the duration.
\<close>

theorem thumbnail_timestamp:
  assumes "io_download env = Resolves u" and "io_writeFile env = Resolves w"
      and "extractMetadata (io_ffprobe env) = Resolves m"
  shows "screenshotTimes (snd (processVideo video env)) = [min 1 (md_duration m / 2)] \<and>
         (md_duration m \<le> 2 \<longrightarrow> min 1 (md_duration m / 2) = md_duration m / 2) \<and>
         (2 \<le> md_duration m \<longrightarrow> min 1 (md_duration m / 2) = 1) \<and>
         (0 \<le> md_duration m \<longrightarrow> min 1 (md_duration m / 2) \<le> md_duration m)"
  using processVideo_screenshot [OF assms, of video]
  by (auto simp: thumbnailTimestamp_def)

theorem thumbnail_timestamp_witness:
  "io_download (mediaOk 3600) = Resolves () \<and> io_writeFile (mediaOk 3600) = Resolves () \<and>
   extractMetadata (io_ffprobe (mediaOk 3600)) = Resolves (metadataOf 3600) \<and>
   screenshotTimes (snd (processVideo freshVideo (mediaOk 3600))) = [1]"
proof -
  have h: "io_download (mediaOk 3600) = Resolves ()" "io_writeFile (mediaOk 3600) = Resolves ()"
    "extractMetadata (io_ffprobe (mediaOk 3600)) = Resolves (metadataOf 3600)"
    by (simp_all add: mediaOk_def extractMetadata_probeOf)
  from thumbnail_timestamp [OF h, of freshVideo] h show ?thesis
    by (simp add: metadataOf_def)
qed

text \<open>
  C7 as stated fails: for a video of one hour the frame is taken at second 1, while the
  midpoint is at second 1800.
\<close>

theorem thumbnail_not_near_midpoint:
  "screenshotTimes (snd (processVideo freshVideo (mediaOk 3600))) = [1] \<and>
   pd_duration (probeOf 3600) / 2 = 1800"
  by code_simp

text \<open>
  C8 (as the code has it). The duration in a successful result is \<open>Math.round\<close> of the
  duration \<open>ffprobe\<close> reported: the nearest whole second, a half going up. It equals
  the truncated duration exactly when the fractional part is below one half.
\<close>

theorem stored_duration_is_rounded:
  assumes "fst (processVideo video env) = PvSuccess md thumbnail fileId sensitivity flags"
      and "io_ffprobe env = Resolves p"
  shows "pm_duration md = \<lfloor>pd_duration p + 1 / 2\<rfloor> \<and>
         (pm_duration md = \<lfloor>pd_duration p\<rfloor> \<longleftrightarrow> frac (pd_duration p) < 1 / 2)"
proof -
  from processVideo_duration [OF assms(1)] obtain m
    where m: "extractMetadata (io_ffprobe env) = Resolves m"
      and d: "pm_duration md = Math_round (md_duration m)" by blast
  from extractMetadata_duration [OF m] assms(2) have "md_duration m = pd_duration p"
    by auto
  with d have "pm_duration md = \<lfloor>pd_duration p + 1 / 2\<rfloor>"
    by (simp add: Math_round_def)
  then show ?thesis using round_vs_truncate [of "pd_duration p"] by simp
qed

theorem stored_duration_is_rounded_witness:
  "fst (processVideo freshVideo (mediaOk (57 / 10))) =
     PvSuccess \<lparr>pm_duration = 6, pm_resolution = (1920, 1080), pm_codec = ''h264'',
                pm_format = ''mp4'', pm_bitRate = 800000, pm_hasAudio = True\<rparr>
       ''thumb-clip-001.jpg'' ''f42'' Safe [] \<and>
   io_ffprobe (mediaOk (57 / 10)) = Resolves (probeOf (57 / 10)) \<and>
   (6::int) = \<lfloor>pd_duration (probeOf (57 / 10)) + 1 / 2\<rfloor>"
proof -
  have h1: "fst (processVideo freshVideo (mediaOk (57 / 10))) =
     PvSuccess \<lparr>pm_duration = 6, pm_resolution = (1920, 1080), pm_codec = ''h264'',
                pm_format = ''mp4'', pm_bitRate = 800000, pm_hasAudio = True\<rparr>
       ''thumb-clip-001.jpg'' ''f42'' Safe []"
    by code_simp
  have h2: "io_ffprobe (mediaOk (57 / 10)) = Resolves (probeOf (57 / 10))"
    by (simp add: mediaOk_def)
  from stored_duration_is_rounded [OF h1 h2] h1 h2 show ?thesis
    by simp
qed

text \<open>
  C8 as stated fails: a raw duration of 5.7 seconds is stored as 6, and truncation would
  give 5.
\<close>

theorem stored_duration_not_truncated:
  "resultDuration (fst (processVideo freshVideo (mediaOk (57 / 10)))) = Some 6 \<and>
   \<lfloor>57 / 10 :: real\<rfloor> = 5"
  by code_simp

section \<open>Properties of the job body\<close>

lemma Math_round_percent: "Math_round 0 = 0" "Math_round 25 = 25" "Math_round 75 = 75"
  by (simp_all add: Math_round_def)

text \<open>
  C5 (as the code has it). When the lookup succeeds and finds no record, \<open>processJob\<close>
  returns without throwing and leaves the store as it was; it makes no blob-store or
  inspector call and sends no notification. What it leaves behind is a console line at
  error level; it emits no event of the queue.
\<close>

theorem missing_record_is_only_logged:
  assumes "db videoId = None" and "db_find1 env = Resolves u"
  shows "processJob io db videoId env =
           (Returned, db,
            [Console LogInfo (''Processing video '' @ videoId @ ''...''),
             FindById videoId,
             Console LogError (''Video '' @ videoId @ '' not found in database'')]) \<and>
         filter isMediaCall (snd (snd (processJob io db videoId env))) = [] \<and>
         filter isEmit (snd (snd (processJob io db videoId env))) = [] \<and>
         notifications (snd (snd (processJob io db videoId env))) = []"
  using assms by (simp add: processJob_def processJob_try_def)

theorem missing_record_is_only_logged_witness:
  "[''v1'' \<mapsto> freshVideo] ''v2'' = None \<and>
   db_find1 (storeOk (mediaOk 60)) = Resolves () \<and>
   processJob True [''v1'' \<mapsto> freshVideo] ''v2'' (storeOk (mediaOk 60)) =
     (Returned, [''v1'' \<mapsto> freshVideo],
      [Console LogInfo ''Processing video v2...'', FindById ''v2'',
       Console LogError ''Video v2 not found in database''])"
proof -
  have h: "[''v1'' \<mapsto> freshVideo] ''v2'' = None" "db_find1 (storeOk (mediaOk 60)) = Resolves ()"
    by (simp_all add: storeOk_def)
  from missing_record_is_only_logged
         [where db = "[''v1'' \<mapsto> freshVideo]" and videoId = "''v2''"
            and env = "storeOk (mediaOk 60)" and io = True, OF h] h
  show ?thesis by simp
qed

text \<open>
  C5 as stated fails in its last part: for an id without a record the job body emits no
  event at all, so no \<open>error\<close> event either (here with a listener registered).
\<close>

theorem missing_record_emits_no_event:
  "filter isEmit
     (snd (snd (processJob True [''v1'' \<mapsto> freshVideo] ''v2'' (storeOk (mediaOk 60))))) = []"
  by (simp add: processJob_def processJob_try_def storeOk_def)

text \<open>
  C10. When the record is found, the record store accepts the saves and \<open>processVideo\<close>
  reports a failure, the owner's room receives, in this order: status \<open>processing\<close>,
  progress 0, 25 and 75, the error, and status \<open>failed\<close>.
\<close>

theorem progress_precedes_failure:
  assumes "db videoId = Some video"
      and "db_find1 env = Resolves u1" and "db_save1 env = Resolves u2"
      and "db_save2 env = Resolves u3"
      and "fst (processVideo (video\<lparr>v_status := Processing\<rparr>) (media env)) = PvFailure err"
  shows "notifications (snd (snd (processJob True db videoId env))) =
           [(userRoom (v_ownerUserId video), Status videoId Processing None []),
            (userRoom (v_ownerUserId video), Progress videoId 0),
            (userRoom (v_ownerUserId video), Progress videoId 25),
            (userRoom (v_ownerUserId video), Progress videoId 75),
            (userRoom (v_ownerUserId video), ErrorNote videoId err),
            (userRoom (v_ownerUserId video), Status videoId Failed None [])]"
  using assms
  by (simp add: processJob_def processJob_try_def Let_def notifications_append
        processVideo_no_notifications emitProcessingStatus_def emitProcessingProgress_def
        emitProcessingError_def Math_round_percent)

theorem progress_precedes_failure_witness:
  "[''v1'' \<mapsto> freshVideo] ''v1'' = Some freshVideo \<and>
   db_find1 (storeOk mediaDownloadFails) = Resolves () \<and>
   db_save1 (storeOk mediaDownloadFails) = Resolves () \<and>
   db_save2 (storeOk mediaDownloadFails) = Resolves () \<and>
   fst (processVideo (freshVideo\<lparr>v_status := Processing\<rparr>)
          (media (storeOk mediaDownloadFails))) =
     PvFailure ''Failed to download from GridFS: FileNotFound'' \<and>
   notifications
     (snd (snd (processJob True [''v1'' \<mapsto> freshVideo] ''v1'' (storeOk mediaDownloadFails)))) =
     [(''user:u7'', Status ''v1'' Processing None []),
      (''user:u7'', Progress ''v1'' 0),
      (''user:u7'', Progress ''v1'' 25),
      (''user:u7'', Progress ''v1'' 75),
      (''user:u7'', ErrorNote ''v1'' ''Failed to download from GridFS: FileNotFound''),
      (''user:u7'', Status ''v1'' Failed None [])]"
proof -
  have h: "[''v1'' \<mapsto> freshVideo] ''v1'' = Some freshVideo"
    "db_find1 (storeOk mediaDownloadFails) = Resolves ()"
    "db_save1 (storeOk mediaDownloadFails) = Resolves ()"
    "db_save2 (storeOk mediaDownloadFails) = Resolves ()"
    by (simp_all add: storeOk_def)
  have f: "fst (processVideo (freshVideo\<lparr>v_status := Processing\<rparr>)
                  (media (storeOk mediaDownloadFails))) =
           PvFailure ''Failed to download from GridFS: FileNotFound''"
    by (simp add: storeOk_def mediaDownloadFails_def mediaOk_def processVideo_def pv_catch_def)
  from progress_precedes_failure
         [where db = "[''v1'' \<mapsto> freshVideo]" and videoId = "''v1''"
            and env = "storeOk mediaDownloadFails", OF h f] h f
  show ?thesis by (simp add: userRoom_def freshVideo_def)
qed

text \<open>
  C3 (as the code has it). For a record that enters the job without a processing error
  and without derived fields, as the upload handler creates it, and with the lookup and
  the saves of the job accepted by the record store, the job body returns and the stored
  record is in exactly one of the two terminal configurations.
\<close>

theorem fresh_record_ends_ready_or_failed:
  assumes "db videoId = Some video"
      and "v_processingError video = None" and "derivedUnpopulated video"
      and "db_find1 env = Resolves u1" and "db_save1 env = Resolves u2"
      and "db_save2 env = Resolves u3"
  shows "fst (processJob io db videoId env) = Returned \<and>
         (case fst (snd (processJob io db videoId env)) videoId of
            None \<Rightarrow> False
          | Some stored \<Rightarrow>
              (terminalReady stored \<and> \<not> terminalFailed stored) \<or>
              (terminalFailed stored \<and> \<not> terminalReady stored))"
proof (cases "fst (processVideo (video\<lparr>v_status := Processing\<rparr>) (media env))")
  case (PvSuccess md thumbnail fileId sensitivity flags)
  with assms show ?thesis
    by (simp add: processJob_def processJob_try_def Let_def terminalReady_def
          terminalFailed_def derivedPopulated_def derivedUnpopulated_def)
next
  case (PvFailure err)
  with assms show ?thesis
    by (simp add: processJob_def processJob_try_def Let_def terminalReady_def
          terminalFailed_def derivedPopulated_def derivedUnpopulated_def)
qed

theorem fresh_record_ends_ready_or_failed_witness:
  "[''v1'' \<mapsto> freshVideo] ''v1'' = Some freshVideo \<and>
   v_processingError freshVideo = None \<and> derivedUnpopulated freshVideo \<and>
   db_find1 (storeOk (mediaOk 60)) = Resolves () \<and>
   db_save1 (storeOk (mediaOk 60)) = Resolves () \<and>
   db_save2 (storeOk (mediaOk 60)) = Resolves () \<and>
   fst (processJob True [''v1'' \<mapsto> freshVideo] ''v1'' (storeOk (mediaOk 60))) = Returned \<and>
   (case fst (snd (processJob True [''v1'' \<mapsto> freshVideo] ''v1'' (storeOk (mediaOk 60)))) ''v1'' of
      None \<Rightarrow> False
    | Some stored \<Rightarrow>
        (terminalReady stored \<and> \<not> terminalFailed stored) \<or>
        (terminalFailed stored \<and> \<not> terminalReady stored)) \<and>
   map_option terminalReady
     (fst (snd (processJob True [''v1'' \<mapsto> freshVideo] ''v1'' (storeOk (mediaOk 60)))) ''v1'')
     = Some True"
proof -
  have h: "[''v1'' \<mapsto> freshVideo] ''v1'' = Some freshVideo"
    "v_processingError freshVideo = None" "derivedUnpopulated freshVideo"
    "db_find1 (storeOk (mediaOk 60)) = Resolves ()"
    "db_save1 (storeOk (mediaOk 60)) = Resolves ()"
    "db_save2 (storeOk (mediaOk 60)) = Resolves ()"
    by (simp_all add: storeOk_def freshVideo_def derivedUnpopulated_def)
  have r: "map_option terminalReady
     (fst (snd (processJob True [''v1'' \<mapsto> freshVideo] ''v1'' (storeOk (mediaOk 60)))) ''v1'')
     = Some True"
    by code_simp
  from fresh_record_ends_ready_or_failed
         [where db = "[''v1'' \<mapsto> freshVideo]" and videoId = "''v1''"
            and env = "storeOk (mediaOk 60)" and io = True, OF h] h r
  show ?thesis by blast
qed

text \<open>
  C3 as stated fails for a record enqueued again after an earlier failure: the success
  branch sets the derived fields and the status and leaves \<open>processingError\<close> as it
  was, so the record ends \<open>ready\<close> with the old error, in neither configuration.
\<close>

theorem reprocessed_record_keeps_stale_error:
  "fst (processJob True [''v1'' \<mapsto> failedVideo] ''v1'' (storeOk (mediaOk 60))) = Returned \<and>
   map_option v_status
     (fst (snd (processJob True [''v1'' \<mapsto> failedVideo] ''v1'' (storeOk (mediaOk 60)))) ''v1'')
     = Some Ready \<and>
   map_option v_processingError
     (fst (snd (processJob True [''v1'' \<mapsto> failedVideo] ''v1'' (storeOk (mediaOk 60)))) ''v1'')
     = Some (Some ''No video stream found'') \<and>
   map_option terminalReady
     (fst (snd (processJob True [''v1'' \<mapsto> failedVideo] ''v1'' (storeOk (mediaOk 60)))) ''v1'')
     = Some False \<and>
   map_option terminalFailed
     (fst (snd (processJob True [''v1'' \<mapsto> failedVideo] ''v1'' (storeOk (mediaOk 60)))) ''v1'')
     = Some False"
  by code_simp

text \<open>
  The other two ways out of the two configurations: a record whose earlier job succeeded
  and whose new job fails keeps its derived fields next to the new error; and with the
  record store unreachable the job body completes while the stored record stays as it was.
\<close>

lemma reprocessed_record_keeps_derived_fields:
  "map_option v_status
     (fst (snd (processJob True [''v1'' \<mapsto> readyVideo] ''v1'' (storeOk mediaDownloadFails))) ''v1'')
     = Some Failed \<and>
   map_option derivedPopulated
     (fst (snd (processJob True [''v1'' \<mapsto> readyVideo] ''v1'' (storeOk mediaDownloadFails))) ''v1'')
     = Some True \<and>
   map_option terminalFailed
     (fst (snd (processJob True [''v1'' \<mapsto> readyVideo] ''v1'' (storeOk mediaDownloadFails))) ''v1'')
     = Some False"
  by code_simp

lemma unreachable_store_leaves_record_uploaded:
  "fst (processJob True [''v1'' \<mapsto> freshVideo] ''v1'' (storeDown (mediaOk 60))) = Returned \<and>
   fst (snd (processJob True [''v1'' \<mapsto> freshVideo] ''v1'' (storeDown (mediaOk 60)))) ''v1''
     = Some freshVideo \<and>
   v_status freshVideo = Uploaded"
  by (simp add: processJob_def processJob_try_def processJob_catch_def storeDown_def
        freshVideo_def)

end
